theory Spec2Isabelle
  imports Main "HOL-Library.Multiset"
begin

section \<open>Data model\<close>

text \<open>
  The storefront consists of an order service (carts, checkout, orders), a product
  service (catalog and stock) and a notification service. Each service keeps its
  documents in its own database; the order service reaches the other two over HTTP.

  Identifiers (MongoDB ObjectIds) and timestamps are natural numbers. The JavaScript
  numbers of the documents (price, stock, quantity, totals) are the integer-valued ones,
  held as integers; fractional prices are not covered. Where a handler stores the result
  of an addition or subtraction, the stock update and the quantity of a cart line, the
  result is rounded as a double is. Comparisons of doubles are exact. The totals of the
  cart view and of an order are sums of integers, which is what the code computes as long
  as every value on the way is a safe integer.
  The authentication middleware is not modelled: every handler takes the id of the
  authenticated user as an argument.
\<close>

type_synonym pid = nat
type_synonym uid = nat
type_synonym oid = nat
type_synonym time = nat

text \<open>The fields of the product schema that the checkout workflow reads or writes.\<close>

record product =
  name :: string
  price :: int
  stock :: int
  image :: string

type_synonym catalog = "pid \<rightharpoonup> product"

text \<open>A line of the cart schema; an order item and a line of the cart view extend it.\<close>

record cart_line =
  productId :: pid
  quantity :: int

record order_item = cart_line +
  item_name :: string
  item_price :: int
  item_image :: string


text \<open>A cart document; the owning user is the key under which it is stored.\<close>

record cart =
  cart_items :: "cart_line list"
  cart_updatedAt :: time

text \<open>
  The shipping address as it arrives in the request body: every field may be missing.
  A request without \<open>shippingAddress\<close> is the address with no field at all.
\<close>

record address =
  addr_name :: "string option"
  street :: "string option"
  city :: "string option"
  state :: "string option"
  zipCode :: "string option"
  country :: "string option"
  phone :: "string option"

datatype order_status = Pending | Confirmed | Processing | Shipped | Delivered | Cancelled

datatype payment_status = PaymentPending | Completed | Failed | Refunded

text \<open>An order document (\<open>paymentId\<close> and \<open>trackingNumber\<close> are never set by these handlers).\<close>

record order =
  orderId :: oid
  userId :: uid
  items :: "order_item list"
  totalAmount :: int
  status :: order_status
  paymentStatus :: payment_status
  shippingAddress :: address
  createdAt :: time
  updatedAt :: time

datatype notification_type = Order_created | Order_status_updated

text \<open>The body posted to the notification service (the message text repeats the order id).\<close>

record notification =
  ntype :: notification_type
  nuserId :: uid
  norderId :: oid

text \<open>What a handler writes with \<open>console.error\<close>.\<close>

datatype log_entry = ProductLookupError pid | NotificationError

text \<open>The error replies: status 400 and 404 carry a message, 500 the text of an exception.\<close>

datatype reply_error = BadRequest string | NotFound string | ServerError

text \<open>
  The state of the whole system: the product collection, the cart and order collections,
  the notifications the notification service has accepted, and the order service's console.
\<close>

record world =
  products :: catalog
  carts :: "uid \<rightharpoonup> cart"
  orders :: "order list"
  notifications :: "notification list"
  console :: "log_entry list"

text \<open>
  Which calls to a collaborator fail in transit (unreachable service, timeout): the
  product lookup and the stock update per product id, and the notification call.
\<close>

record net =
  get_fails :: "pid \<Rightarrow> bool"
  patch_fails :: "pid \<Rightarrow> bool"
  notify_fails :: bool

section \<open>JavaScript numbers\<close>

text \<open>
  A JavaScript number is an IEEE double. The sum or difference of two doubles is the exact
  result rounded to the nearest double, and to the one with the even mantissa when two
  are equally near. \<open>round_double\<close> is this rounding on integers (of magnitude below
  \<open>2 ^ 1024\<close>, where doubles end): the mantissa keeps the leading 53 bits. Every integer
  of magnitude up to \<open>2 ^ 53\<close> is a double; \<open>safe_integer\<close> is
  \<open>Number.isSafeInteger\<close>. A number that a handler receives in a parsed request body or
  reads from a document is a double already.
\<close>

fun bitlen :: "nat \<Rightarrow> nat" where
  "bitlen n = (if n = 0 then 0 else Suc (bitlen (n div 2)))"

declare bitlen.simps [simp del]

definition round_double :: "int \<Rightarrow> int" where
  "round_double x =
     (let a = nat \<bar>x\<bar>;
          u = 2 ^ (bitlen a - 53);
          q = a div u;
          r = a mod u;
          m = (if 2 * r < u \<or> (2 * r = u \<and> even q) then q else Suc q)
      in sgn x * int (m * u))"

definition safe_integer :: "int \<Rightarrow> bool" where
  "safe_integer x = (\<bar>x\<bar> \<le> 2 ^ 53 - 1)"

section \<open>Product service\<close>

text \<open>\<open>GET /products/:id\<close>.\<close>

definition getProduct :: "catalog \<Rightarrow> pid \<Rightarrow> reply_error + product" where
  "getProduct cat i =
     (case cat i of
        None \<Rightarrow> Inl (NotFound ''Product not found'')
      | Some p \<Rightarrow> Inr p)"

text \<open>
  \<open>PATCH /products/:id/stock\<close> with body \<open>{quantity, operation}\<close>. The reply carries the
  new stock. \<open>product.stock -= quantity\<close> and \<open>product.stock += quantity\<close> are
  operations on doubles. An operation that is neither \<open>decrease\<close> nor \<open>increase\<close> saves
  the document as it is.
\<close>

definition updateStock :: "catalog \<Rightarrow> pid \<Rightarrow> int \<Rightarrow> string \<Rightarrow> (reply_error + int) \<times> catalog" where
  "updateStock cat i qty operation =
     (case cat i of
        None \<Rightarrow> (Inl (NotFound ''Product not found''), cat)
      | Some p \<Rightarrow>
          (case (if operation = ''decrease'' then
                   (if stock p < qty then Inl (BadRequest ''Insufficient stock'')
                    else Inr (p\<lparr>stock := round_double (stock p - qty)\<rparr>))
                 else if operation = ''increase'' then
                   Inr (p\<lparr>stock := round_double (stock p + qty)\<rparr>)
                 else Inr p) of
             Inl e \<Rightarrow> (Inl e, cat)
           | Inr p' \<Rightarrow> (Inr (stock p'), cat(i \<mapsto> p'))))"

section \<open>Order service\<close>

subsection \<open>Calls to the collaborators\<close>

text \<open>
  \<open>axios.get\<close> of a product: the promise rejects when the call fails in transit or the
  product service answers with an error status; \<open>None\<close> is the rejection.
\<close>

definition axios_get :: "net \<Rightarrow> catalog \<Rightarrow> pid \<Rightarrow> product option" where
  "axios_get n cat i =
     (if get_fails n i then None
      else (case getProduct cat i of Inl e \<Rightarrow> None | Inr p \<Rightarrow> Some p))"

text \<open>\<open>axios.patch\<close> of a product's stock: \<open>False\<close> is the rejection.\<close>

definition axios_patch :: "net \<Rightarrow> catalog \<Rightarrow> pid \<Rightarrow> int \<Rightarrow> string \<Rightarrow> bool \<times> catalog" where
  "axios_patch n cat i qty operation =
     (if patch_fails n i then (False, cat)
      else (case updateStock cat i qty operation of
              (Inl e, cat') \<Rightarrow> (False, cat')
            | (Inr s, cat') \<Rightarrow> (True, cat')))"

text \<open>
  The notification block of both order handlers: \<open>try { axios.post } catch { console.error }\<close>.
\<close>

definition send_notification :: "net \<Rightarrow> notification \<Rightarrow> world \<Rightarrow> world" where
  "send_notification n msg w =
     (if notify_fails n then w\<lparr>console := console w @ [NotificationError]\<rparr>
      else w\<lparr>notifications := notifications w @ [msg]\<rparr>)"

subsection \<open>Cart\<close>



text \<open>
  What the parsed request body of \<open>POST /cart/add\<close> can hold as quantity: a number
  or a string. The handler does not check which.
\<close>

datatype json = Num int | Str string

text \<open>
  The conversions of the libraries that the handler relies on, taken as they are:
  \<open>toString\<close> of an ObjectId, the cast of a string to an ObjectId (\<open>None\<close>: a cast
  error), the text JavaScript gives a number that is added to a string, and the cast of
  a string to a number of the schema (\<open>None\<close>: the document does not validate).
\<close>

record js_lib =
  id_text :: "pid \<Rightarrow> string"
  id_cast :: "string \<Rightarrow> pid option"
  num_text :: "int \<Rightarrow> string"
  num_cast :: "string \<Rightarrow> int option"

text \<open>
  JavaScript's \<open>+\<close> with a number on the left: two numbers are added as doubles; a
  string on the right is appended to the text of the number.
\<close>

definition js_plus :: "js_lib \<Rightarrow> int \<Rightarrow> json \<Rightarrow> json" where
  "js_plus lib a v =
     (case v of
        Num b \<Rightarrow> Num (round_double (a + b))
      | Str s \<Rightarrow> Str (num_text lib a @ s))"

text \<open>The cast of a value assigned to the \<open>quantity\<close> of a cart line.\<close>

definition cast_number :: "js_lib \<Rightarrow> json \<Rightarrow> int option" where
  "cast_number lib v = (case v of Num b \<Rightarrow> Some b | Str s \<Rightarrow> num_cast lib s)"

text \<open>The assignment to \<open>existingItem.quantity\<close>, the line that \<open>find\<close> returned.\<close>

fun set_first_quantity :: "(cart_line \<Rightarrow> bool) \<Rightarrow> int \<Rightarrow> cart_line list \<Rightarrow> cart_line list" where
  "set_first_quantity P v [] = []"
| "set_first_quantity P v (item # rest) =
     (if P item then item\<lparr>quantity := v\<rparr> # rest else item # set_first_quantity P v rest)"

text \<open>
  \<open>POST /cart/add\<close> with body \<open>{productId, quantity}\<close>; a missing quantity defaults to 1.
  \<open>productId\<close> is the string of the request. The product service casts it to look the
  product up; a failed cast and a rejected lookup are caught by the handler's outer
  \<open>catch\<close> (status 500), and the branch on an empty response body cannot be taken, since
  a successful lookup carries a product document. A line of the cart is an existing one
  when \<open>toString\<close> of its product id is the string of the request. \<open>+=\<close> is applied
  to the quantity as it came, and what it gives is cast when it is assigned; a new line
  has the request's id and quantity cast when it is pushed. A cast that fails makes
  \<open>cart.save()\<close> fail (status 500), and nothing is stored.
\<close>

definition addItem ::
  "js_lib \<Rightarrow> net \<Rightarrow> time \<Rightarrow> uid \<Rightarrow> string \<Rightarrow> json option \<Rightarrow> world
     \<Rightarrow> (reply_error + cart) \<times> world" where
  "addItem lib n now u productId_text quantity_opt w =
     (let qty = (case quantity_opt of None \<Rightarrow> Num 1 | Some v \<Rightarrow> v) in
      case (case id_cast lib productId_text of
              None \<Rightarrow> None
            | Some i \<Rightarrow> axios_get n (products w) i) of
        None \<Rightarrow> (Inl ServerError, w)
      | Some found \<Rightarrow>
          (let c = (case carts w u of
                      None \<Rightarrow> \<lparr>cart_items = [], cart_updatedAt = now\<rparr>
                    | Some c' \<Rightarrow> c')
           in case (case find (\<lambda>item. id_text lib (productId item) = productId_text)
                                (cart_items c) of
                      Some existingItem \<Rightarrow>
                        (case cast_number lib (js_plus lib (quantity existingItem) qty) of
                           None \<Rightarrow> None
                         | Some v \<Rightarrow>
                             Some (set_first_quantity
                                     (\<lambda>item. id_text lib (productId item) = productId_text)
                                     v (cart_items c)))
                    | None \<Rightarrow>
                        (case (id_cast lib productId_text, cast_number lib qty) of
                           (Some i, Some v) \<Rightarrow>
                             Some (cart_items c @ [\<lparr>productId = i, quantity = v\<rparr>])
                         | _ \<Rightarrow> None)) of
                None \<Rightarrow> (Inl ServerError, w)
              | Some items' \<Rightarrow>
                  (Inr \<lparr>cart_items = items', cart_updatedAt = now\<rparr>,
                   w\<lparr>carts := (carts w)(u \<mapsto> \<lparr>cart_items = items', cart_updatedAt = now\<rparr>)\<rparr>)))"

subsection \<open>Checkout\<close>

text \<open>
  The first loop of \<open>POST /orders\<close>: look every line up, check its stock, collect the
  order items and the total. A rejected lookup leaves the handler through the outer
  \<open>catch\<close>; a line short of stock returns status 400 at once.
\<close>

fun order_lines ::
  "net \<Rightarrow> catalog \<Rightarrow> cart_line list \<Rightarrow> order_item list \<Rightarrow> int
     \<Rightarrow> reply_error + order_item list \<times> int" where
  "order_lines n cat [] orderItems totalAmt = Inr (orderItems, totalAmt)"
| "order_lines n cat (item # rest) orderItems totalAmt =
     (case axios_get n cat (productId item) of
        None \<Rightarrow> Inl ServerError
      | Some p \<Rightarrow>
          if stock p < quantity item then Inl (BadRequest (''Insufficient stock for '' @ name p))
          else order_lines n cat rest
                 (orderItems @ [\<lparr>productId = productId item, quantity = quantity item,
                                  item_name = name p, item_price = price p, item_image = image p\<rparr>])
                 (totalAmt + price p * quantity item))"

text \<open>
  The second loop: one stock decrease per order item; the first rejected call ends it.
\<close>

fun decrease_stock :: "net \<Rightarrow> catalog \<Rightarrow> order_item list \<Rightarrow> bool \<times> catalog" where
  "decrease_stock n cat [] = (True, cat)"
| "decrease_stock n cat (item # rest) =
     (case axios_patch n cat (productId item) (quantity item) ''decrease'' of
        (False, cat') \<Rightarrow> (False, cat')
      | (True, cat') \<Rightarrow> decrease_stock n cat' rest)"

text \<open>
  The validation that \<open>order.save()\<close> runs: the order schema requires six fields of the
  shipping address, and a required string must be present and not empty. The name and
  price of an item are copied from a product document, whose schema requires them.
\<close>

definition required :: "string option \<Rightarrow> bool" where
  "required v = (case v of None \<Rightarrow> False | Some s \<Rightarrow> s \<noteq> [])"

definition required_fields :: "address \<Rightarrow> bool" where
  "required_fields a =
     (required (addr_name a) \<and> required (street a) \<and> required (city a) \<and>
      required (state a) \<and> required (zipCode a) \<and> required (country a))"

definition validate_order :: "order \<Rightarrow> bool" where
  "validate_order ord = required_fields (shippingAddress ord)"

text \<open>
  \<open>new Order({userId, items, totalAmount, shippingAddress})\<close>: the schema defaults give
  the status \<open>pending\<close>, the payment status \<open>pending\<close> and both timestamps the current time.
\<close>

definition new_order ::
  "oid \<Rightarrow> time \<Rightarrow> uid \<Rightarrow> address \<Rightarrow> order_item list \<Rightarrow> int \<Rightarrow> order" where
  "new_order new_id now u addr orderItems totalAmt =
     \<lparr>orderId = new_id, userId = u, items = orderItems, totalAmount = totalAmt,
      status = Pending, paymentStatus = PaymentPending, shippingAddress = addr,
      createdAt = now, updatedAt = now\<rparr>"

text \<open>
  \<open>POST /orders\<close> with body \<open>{shippingAddress}\<close>. \<open>new_id\<close> is the id the new document
  gets and \<open>now\<close> the clock. Status 201 with the order is \<open>Inr\<close>. A failed validation
  and a rejected stock update both leave through the outer \<open>catch\<close> (status 500); in the
  second case the order is already saved and the cart is not cleared.
\<close>

definition createOrder ::
  "net \<Rightarrow> oid \<Rightarrow> time \<Rightarrow> uid \<Rightarrow> address \<Rightarrow> world \<Rightarrow> (reply_error + order) \<times> world" where
  "createOrder n new_id now u addr w =
     (case carts w u of
        None \<Rightarrow> (Inl (BadRequest ''Cart is empty''), w)
      | Some c \<Rightarrow>
          if cart_items c = [] then (Inl (BadRequest ''Cart is empty''), w)
          else
            (case order_lines n (products w) (cart_items c) [] 0 of
               Inl e \<Rightarrow> (Inl e, w)
             | Inr (orderItems, totalAmt) \<Rightarrow>
                 (let ord = new_order new_id now u addr orderItems totalAmt
                  in if \<not> validate_order ord then (Inl ServerError, w)
                     else
                       (let w1 = w\<lparr>orders := orders w @ [ord]\<rparr> in
                        case decrease_stock n (products w1) orderItems of
                          (False, cat') \<Rightarrow> (Inl ServerError, w1\<lparr>products := cat'\<rparr>)
                        | (True, cat') \<Rightarrow>
                            (Inr ord,
                             send_notification n
                               \<lparr>ntype = Order_created, nuserId = u, norderId = new_id\<rparr>
                               (w1\<lparr>products := cat', carts := (carts w1)(u := None)\<rparr>))))))"

subsection \<open>Orders\<close>

text \<open>\<open>GET /orders\<close>: the caller's orders, newest first.\<close>

definition getOrders :: "uid \<Rightarrow> world \<Rightarrow> order list" where
  "getOrders u w = rev (sort_key createdAt (filter (\<lambda>ord. userId ord = u) (orders w)))"

text \<open>\<open>GET /orders/:id\<close>.\<close>

definition getOrder :: "oid \<Rightarrow> uid \<Rightarrow> world \<Rightarrow> reply_error + order" where
  "getOrder i u w =
     (case find (\<lambda>ord. orderId ord = i \<and> userId ord = u) (orders w) of
        None \<Rightarrow> Inl (NotFound ''Order not found'')
      | Some ord \<Rightarrow> Inr ord)"

text \<open>\<open>findOneAndUpdate\<close>: the update applied to the first document that matches.\<close>

fun update_first :: "(order \<Rightarrow> bool) \<Rightarrow> (order \<Rightarrow> order) \<Rightarrow> order list \<Rightarrow> order list" where
  "update_first P f [] = []"
| "update_first P f (ord # rest) =
     (if P ord then f ord # rest else ord # update_first P f rest)"

text \<open>\<open>PATCH /orders/:id/status\<close> with body \<open>{status}\<close>; the reply is the updated order.\<close>

definition updateStatus ::
  "net \<Rightarrow> time \<Rightarrow> oid \<Rightarrow> uid \<Rightarrow> order_status \<Rightarrow> world \<Rightarrow> (reply_error + order) \<times> world" where
  "updateStatus n now i u s w =
     (case find (\<lambda>ord. orderId ord = i \<and> userId ord = u) (orders w) of
        None \<Rightarrow> (Inl (NotFound ''Order not found''), w)
      | Some ord \<Rightarrow>
          (Inr (ord\<lparr>status := s, updatedAt := now\<rparr>),
           send_notification n
             \<lparr>ntype = Order_status_updated, nuserId = u, norderId = orderId ord\<rparr>
             (w\<lparr>orders := update_first (\<lambda>ord. orderId ord = i \<and> userId ord = u)
                             (\<lambda>ord. ord\<lparr>status := s, updatedAt := now\<rparr>) (orders w)\<rparr>)))"

section \<open>Descriptions that the claims compare the handlers with\<close>

text \<open>The lines of a user's cart; a user without a cart document has none.\<close>

definition lines_of :: "world \<Rightarrow> uid \<Rightarrow> cart_line list" where
  "lines_of w u = (case carts w u of None \<Rightarrow> [] | Some c \<Rightarrow> cart_items c)"

text \<open>
  The upsert that claim C5 describes: the line of the product gets the quantity added, and
  a cart without such a line gets a new line at the end.
\<close>

definition upsert_line :: "cart_line list \<Rightarrow> pid \<Rightarrow> int \<Rightarrow> cart_line list" where
  "upsert_line ls p q =
     (if p \<in> productId ` set ls
      then map (\<lambda>l. if productId l = p then l\<lparr>quantity := quantity l + q\<rparr> else l) ls
      else ls @ [\<lparr>productId = p, quantity = q\<rparr>])"


text \<open>
  A line is covered when its product lookup succeeds and the quantity is at most the
  stock of the product: the condition of claim C1 on one line.
\<close>

definition sufficient :: "net \<Rightarrow> catalog \<Rightarrow> cart_line \<Rightarrow> bool" where
  "sufficient n cat l =
     (case axios_get n cat (productId l) of None \<Rightarrow> False | Some p \<Rightarrow> quantity l \<le> stock p)"

text \<open>The order item that snapshots a line: name, price and image as the lookup returns them.\<close>

definition snapshot :: "net \<Rightarrow> catalog \<Rightarrow> cart_line \<Rightarrow> order_item option" where
  "snapshot n cat l =
     (case axios_get n cat (productId l) of
        None \<Rightarrow> None
      | Some p \<Rightarrow> Some \<lparr>productId = productId l, quantity = quantity l,
                         item_name = name p, item_price = price p, item_image = image p\<rparr>)"


section \<open>Concrete inputs\<close>

text \<open>A catalog with two products, used to run the handlers on explicit inputs.\<close>

definition demo_product :: product where
  "demo_product = \<lparr>name = ''Widget'', price = 10, stock = 5, image = ''w.png''\<rparr>"

definition demo_catalog :: catalog where
  "demo_catalog =
     [1 \<mapsto> demo_product, 2 \<mapsto> \<lparr>name = ''Gadget'', price = 4, stock = 1, image = ''g.png''\<rparr>]"

definition no_faults :: net where
  "no_faults = \<lparr>get_fails = (\<lambda>i. False), patch_fails = (\<lambda>i. False), notify_fails = False\<rparr>"

definition demo_address :: address where
  "demo_address = \<lparr>addr_name = Some ''Ada'', street = Some ''1 Main St'', city = Some ''Pune'',
     state = Some ''MH'', zipCode = Some ''411001'', country = Some ''IN'', phone = None\<rparr>"

text \<open>User 7 with a cart of the given lines, and the same system without any cart.\<close>

definition demo_world :: "cart_line list \<Rightarrow> world" where
  "demo_world ls = \<lparr>products = demo_catalog,
     carts = [7 \<mapsto> \<lparr>cart_items = ls, cart_updatedAt = 0\<rparr>],
     orders = [], notifications = [], console = []\<rparr>"

definition no_cart_world :: world where
  "no_cart_world = \<lparr>products = demo_catalog, carts = Map.empty,
     orders = [], notifications = [], console = []\<rparr>"

text \<open>Three stored orders: two of user 7 and one of user 8.\<close>

definition order_of :: "oid \<Rightarrow> uid \<Rightarrow> time \<Rightarrow> order" where
  "order_of i u t = \<lparr>orderId = i, userId = u, items = [], totalAmount = 0, status = Pending,
     paymentStatus = PaymentPending, shippingAddress = demo_address, createdAt = t, updatedAt = t\<rparr>"

definition orders_world :: world where
  "orders_world = \<lparr>products = demo_catalog, carts = Map.empty,
     orders = [order_of 1 7 10, order_of 2 8 20, order_of 3 7 30],
     notifications = [], console = []\<rparr>"


text \<open>
  A request without shipping address, a network on which every stock update fails, and
  the order item of a cart line for product 1.
\<close>

definition no_address :: address where
  "no_address = \<lparr>addr_name = None, street = None, city = None, state = None,
     zipCode = None, country = None, phone = None\<rparr>"

definition patch_down :: net where
  "patch_down = \<lparr>get_fails = (\<lambda>i. False), patch_fails = (\<lambda>i. True), notify_fails = False\<rparr>"

definition widget_item :: "int \<Rightarrow> order_item" where
  "widget_item q = \<lparr>productId = 1, quantity = q, item_name = ''Widget'', item_price = 10,
     item_image = ''w.png''\<rparr>"

text \<open>
  A library that writes an id as 24 lowercase hexadecimal digits and reads 24
  hexadecimal digits of either case, and that writes and reads numbers in decimal digits.
\<close>

definition hex_digit :: "nat \<Rightarrow> char" where
  "hex_digit d = ''0123456789abcdef'' ! d"

fun to_hex :: "nat \<Rightarrow> nat \<Rightarrow> string" where
  "to_hex 0 v = []"
| "to_hex (Suc k) v = to_hex k (v div 16) @ [hex_digit (v mod 16)]"

definition hex_value :: "char \<Rightarrow> nat option" where
  "hex_value c =
     map_of (zip ''0123456789abcdefABCDEF''
               [0, 1, 2, 3, 4, 5, 6, 7, 8, 9, 10, 11, 12, 13, 14, 15, 10, 11, 12, 13, 14, 15]) c"

fun from_hex :: "string \<Rightarrow> nat \<Rightarrow> nat option" where
  "from_hex [] acc = Some acc"
| "from_hex (c # cs) acc =
     (case hex_value c of None \<Rightarrow> None | Some d \<Rightarrow> from_hex cs (16 * acc + d))"

definition dec_digit :: "nat \<Rightarrow> char" where
  "dec_digit d = ''0123456789'' ! d"

fun to_dec :: "nat \<Rightarrow> string" where
  "to_dec n = (if n < 10 then [dec_digit n] else to_dec (n div 10) @ [dec_digit (n mod 10)])"

declare to_dec.simps [simp del]

definition dec_value :: "char \<Rightarrow> nat option" where
  "dec_value c = map_of (zip ''0123456789'' [0, 1, 2, 3, 4, 5, 6, 7, 8, 9]) c"

fun from_dec :: "string \<Rightarrow> nat \<Rightarrow> nat option" where
  "from_dec [] acc = Some acc"
| "from_dec (c # cs) acc =
     (case dec_value c of None \<Rightarrow> None | Some d \<Rightarrow> from_dec cs (10 * acc + d))"

definition demo_lib :: js_lib where
  "demo_lib =
     \<lparr>id_text = to_hex 24,
      id_cast = (\<lambda>s. if length s = 24 then from_hex s 0 else None),
      num_text = (\<lambda>x. if 0 \<le> x then to_dec (nat x) else CHR ''-'' # to_dec (nat (- x))),
      num_cast = (\<lambda>s. case s of
                          [] \<Rightarrow> None
                        | c # cs \<Rightarrow>
                            if c = CHR ''-'' then
                              (if cs = [] then None
                               else map_option (\<lambda>v. round_double (- int v)) (from_dec cs 0))
                            else map_option (\<lambda>v. round_double (int v)) (from_dec s 0))\<rparr>"

text \<open>A system whose one product has the id \<open>ab\<close> in hexadecimal, without carts.\<close>

definition hex_world :: world where
  "hex_world = \<lparr>products = [171 \<mapsto> demo_product], carts = Map.empty,
     orders = [], notifications = [], console = []\<rparr>"

section \<open>Rounding\<close>

lemma bitlen_le: "n < 2 ^ k \<Longrightarrow> bitlen n \<le> k"
proof (induction k arbitrary: n)
  case 0
  then show ?case by (simp add: bitlen.simps)
next
  case (Suc k)
  show ?case
  proof (cases "n = 0")
    case True
    then show ?thesis by (simp add: bitlen.simps)
  next
    case False
    from Suc.prems have "n div 2 < 2 ^ k" by simp
    then have "bitlen (n div 2) \<le> k" by (rule Suc.IH)
    with False show ?thesis by (simp add: bitlen.simps [of n])
  qed
qed

lemma bitlen_power: "bitlen (2 ^ k) = Suc k"
proof (induction k)
  case 0
  show ?case by (simp add: bitlen.simps [of "Suc 0"] bitlen.simps [of 0])
next
  case (Suc k)
  then show ?case by (simp add: bitlen.simps [of "2 * 2 ^ k"])
qed

lemma round_double_exact: "\<bar>x\<bar> \<le> 2 ^ 53 \<Longrightarrow> round_double x = x"
proof -
  assume b: "\<bar>x\<bar> \<le> 2 ^ 53"
  let ?a = "nat \<bar>x\<bar>"
  have s: "sgn x * int ?a = x" by (simp add: mult_sgn_abs)
  from b have "?a \<le> 2 ^ 53" by (simp add: nat_le_iff)
  then consider "?a < 2 ^ 53" | "?a = 2 ^ 53" by linarith
  then show ?thesis
  proof cases
    case 1
    then have "bitlen ?a - 53 = 0" using bitlen_le [of ?a 53] by simp
    with s show ?thesis by (simp add: round_double_def)
  next
    case 2
    have "bitlen (2 ^ 53) = Suc 53" by (rule bitlen_power)
    with 2 have "bitlen ?a = 54" by simp
    then have u: "(2::nat) ^ (bitlen ?a - 53) = 2" by simp
    have d: "?a div 2 = 2 ^ 52" "?a mod 2 = 0" unfolding 2 by simp_all
    have "round_double x = sgn x * int (2 ^ 52 * 2)"
      unfolding round_double_def Let_def u d by simp
    also have "\<dots> = sgn x * int ?a" unfolding 2 by simp
    finally show ?thesis using s by simp
  qed
qed

lemma round_double_safe: "safe_integer x \<Longrightarrow> round_double x = x"
  by (rule round_double_exact) (simp add: safe_integer_def)

lemma round_double_nonneg: "0 \<le> x \<Longrightarrow> 0 \<le> round_double x"
  by (simp add: round_double_def Let_def sgn_if)

lemma bitlen_ge: "2 ^ k \<le> n \<Longrightarrow> Suc k \<le> bitlen n"
proof (induction k arbitrary: n)
  case 0
  then show ?case by (simp add: bitlen.simps [of n])
next
  case (Suc k)
  from Suc.prems have "2 ^ k \<le> n div 2" by simp
  then have "Suc k \<le> bitlen (n div 2)" by (rule Suc.IH)
  moreover have "(0::nat) < 2 ^ Suc k" by simp
  with Suc.prems have "n \<noteq> 0" by linarith
  ultimately show ?case by (simp add: bitlen.simps [of n])
qed

lemma bitlen_eq: "2 ^ k \<le> n \<Longrightarrow> n < 2 ^ Suc k \<Longrightarrow> bitlen n = Suc k"
  using bitlen_ge [of k n] bitlen_le [of n "Suc k"] by simp

lemma round_double_tie: "round_double (2 ^ 53 + 1) = 2 ^ 53"
proof -
  have b: "bitlen (2 ^ 53 + 1) = Suc 53" by (rule bitlen_eq) simp_all
  have a: "nat \<bar>2 ^ 53 + 1 :: int\<bar> = 2 ^ 53 + 1" by simp
  show ?thesis
    unfolding round_double_def Let_def a b by simp
qed


lemma bitlen_lower: "n \<noteq> 0 \<Longrightarrow> 2 ^ (bitlen n - 1) \<le> n"
proof (rule ccontr)
  assume n: "n \<noteq> 0" and "\<not> 2 ^ (bitlen n - 1) \<le> n"
  then have "n < 2 ^ (bitlen n - 1)" by simp
  then have "bitlen n \<le> bitlen n - 1" by (rule bitlen_le)
  moreover from n have "0 < bitlen n" by (simp add: bitlen.simps [of n])
  ultimately show False by simp
qed

lemma mantissa_bound:
  fixes a u m :: nat
  assumes low: "2 ^ 52 * u \<le> a" and u: "2 \<le> u" and m: "a div u \<le> m"
  shows "2 ^ 53 \<le> m * u"
proof -
  from u have "0 < u" by simp
  with low have "2 ^ 52 \<le> a div u" by (simp only: less_eq_div_iff_mult_less_eq)
  with m have "2 ^ 52 \<le> m" by (rule le_trans [rotated])
  then have "2 ^ 52 * 2 \<le> m * u" using u by (rule mult_le_mono)
  moreover have "(2::nat) ^ 53 = 2 ^ 52 * 2" by simp
  ultimately show ?thesis by (simp only:)
qed

lemma round_double_pos:
  "0 < x \<Longrightarrow> round_double x =
     int ((if 2 * (nat x mod 2 ^ (bitlen (nat x) - 53)) < 2 ^ (bitlen (nat x) - 53) \<or>
              (2 * (nat x mod 2 ^ (bitlen (nat x) - 53)) = 2 ^ (bitlen (nat x) - 53) \<and>
               even (nat x div 2 ^ (bitlen (nat x) - 53)))
           then nat x div 2 ^ (bitlen (nat x) - 53)
           else Suc (nat x div 2 ^ (bitlen (nat x) - 53))) * 2 ^ (bitlen (nat x) - 53))"
  unfolding round_double_def Let_def by simp


lemma bitlen_split:
  assumes a: "2 ^ 53 \<le> a"
  shows "2 ^ 52 * 2 ^ (bitlen a - 53) \<le> a \<and> (2::nat) \<le> 2 ^ (bitlen a - 53)"
proof -
  from a have L: "54 \<le> bitlen a" using bitlen_ge [of 53 a] by simp
  have "(0::nat) < 2 ^ 53" by simp
  with a have "a \<noteq> 0" by linarith
  then have low: "2 ^ (bitlen a - 1) \<le> a" by (rule bitlen_lower)
  from L have e: "bitlen a - 1 = 52 + (bitlen a - 53)" by simp
  have "(2::nat) ^ (bitlen a - 1) = 2 ^ 52 * 2 ^ (bitlen a - 53)" by (simp only: e power_add)
  then have 1: "2 ^ 52 * 2 ^ (bitlen a - 53) \<le> a" using low by (simp only:)
  have "(2::nat) ^ 1 \<le> 2 ^ (bitlen a - 53)" by (rule power_increasing) (use L in simp_all)
  then have 2: "(2::nat) \<le> 2 ^ (bitlen a - 53)" by (simp only: power_one_right)
  from 1 2 show ?thesis by (rule conjI)
qed


lemma round_double_ge: "2 ^ 53 \<le> x \<Longrightarrow> 2 ^ 53 \<le> round_double x"
proof -
  assume x: "2 ^ 53 \<le> x"
  let ?a = "nat x"
  let ?u = "(2::nat) ^ (bitlen ?a - 53)"
  let ?m = "if 2 * (?a mod ?u) < ?u \<or> (2 * (?a mod ?u) = ?u \<and> even (?a div ?u))
            then ?a div ?u else Suc (?a div ?u)"
  have "(0::int) < 2 ^ 53" by simp
  with x have pos: "0 < x" by linarith
  have "int (2 ^ 53) = 2 ^ 53" by simp
  with x pos have "int (2 ^ 53) \<le> int ?a" by linarith
  then have a: "2 ^ 53 \<le> ?a" by (simp only: of_nat_le_iff)
  note s = bitlen_split [OF a]
  have m: "?a div ?u \<le> ?m" by (simp only: if_distrib [of "\<lambda>z. ?a div ?u \<le> z"]) simp
  from s have "2 ^ 53 \<le> ?m * ?u"
    by (intro mantissa_bound [OF _ _ m]) simp_all
  then have "int (2 ^ 53) \<le> int (?m * ?u)" by (simp only: of_nat_le_iff)
  moreover have "round_double x = int (?m * ?u)" by (rule round_double_pos [OF pos])
  ultimately have "int (2 ^ 53) \<le> round_double x" by (simp only:)
  then show ?thesis by simp
qed

section \<open>Stock updates of the product service\<close>

lemma updateStock_other: "j \<noteq> i \<Longrightarrow> snd (updateStock cat i q operation) j = cat j"
  by (simp add: updateStock_def split: option.splits)

lemma updateStock_same:
  "cat i = Some p \<Longrightarrow> snd (updateStock cat i q operation) i = Some p' \<Longrightarrow>
   stock p' = stock p \<or>
   (operation = ''decrease'' \<and> q \<le> stock p \<and> stock p' = round_double (stock p - q)) \<or>
   (operation = ''increase'' \<and> stock p' = round_double (stock p + q))"
  by (auto simp: updateStock_def split: if_splits)

lemma demo_catalog_nonneg: "\<forall>j p. demo_catalog j = Some p \<longrightarrow> 0 \<le> stock p"
  by (simp add: demo_catalog_def demo_product_def)

text \<open>
  At the edge of the safe integers the update rounds as the double does: an increase by
  one of the stock \<open>2 ^ 53\<close> replies \<open>2 ^ 53\<close>.
\<close>

lemma updateStock_rounds:
  "cat i = Some p \<Longrightarrow> stock p = 2 ^ 53 \<Longrightarrow>
   fst (updateStock cat i 1 ''increase'') = Inr (2 ^ 53)"
  using round_double_tie by (simp add: updateStock_def)



text \<open>
  Claim C10. If no product of the catalog has negative stock and the quantity is not
  negative, then after a stock update, whatever the operation, no product has negative
  stock. A decrease that would take the stock below zero is answered with 400 and the
  catalog is not touched. An increase of a stock that is a safe integer never lowers it,
  and adds exactly the quantity when the quantity and the sum are safe integers too.
\<close>

theorem updateStock_keeps_stock_nonneg:
  assumes inv: "\<forall>j p. cat j = Some p \<longrightarrow> 0 \<le> stock p" and q: "0 \<le> q"
  shows "(\<forall>j p. snd (updateStock cat i q operation) j = Some p \<longrightarrow> 0 \<le> stock p) \<and>
         (\<forall>p. cat i = Some p \<and> stock p - q < 0 \<longrightarrow>
            updateStock cat i q ''decrease'' = (Inl (BadRequest ''Insufficient stock''), cat)) \<and>
         (\<forall>p. cat i = Some p \<and> safe_integer (stock p) \<longrightarrow>
            (\<exists>p'. snd (updateStock cat i q ''increase'') i = Some p' \<and> stock p \<le> stock p' \<and>
                  (safe_integer q \<and> safe_integer (stock p + q) \<longrightarrow> stock p' = stock p + q)))"
proof (intro conjI allI impI)
  fix j p assume after: "snd (updateStock cat i q operation) j = Some p"
  show "0 \<le> stock p"
  proof (cases "j = i")
    case False
    with after inv show ?thesis by (simp add: updateStock_other)
  next
    case True
    show ?thesis
    proof (cases "cat i")
      case None
      with after True show ?thesis by (simp add: updateStock_def)
    next
      case (Some p0)
      from inv Some have "0 \<le> stock p0" by blast
      with updateStock_same [OF Some after [unfolded True]] q show ?thesis
        by (auto intro!: round_double_nonneg)
    qed
  qed
next
  fix p assume "cat i = Some p \<and> stock p - q < 0"
  then show "updateStock cat i q ''decrease'' = (Inl (BadRequest ''Insufficient stock''), cat)"
    by (simp add: updateStock_def)
next
  fix p assume h: "cat i = Some p \<and> safe_integer (stock p)"
  with inv have nonneg: "0 \<le> stock p" by blast
  from h have top: "stock p \<le> 2 ^ 53" by (simp add: safe_integer_def abs_le_iff)
  have grows: "stock p \<le> round_double (stock p + q)"
  proof (cases "stock p + q \<le> 2 ^ 53")
    case True
    with nonneg q have "\<bar>stock p + q\<bar> \<le> 2 ^ 53" by simp
    then have "round_double (stock p + q) = stock p + q" by (rule round_double_exact)
    with q show ?thesis by simp
  next
    case False
    then have "2 ^ 53 \<le> stock p + q" by simp
    then have "2 ^ 53 \<le> round_double (stock p + q)" by (rule round_double_ge)
    with top show ?thesis by simp
  qed
  from h grows
  show "\<exists>p'. snd (updateStock cat i q ''increase'') i = Some p' \<and> stock p \<le> stock p' \<and>
          (safe_integer q \<and> safe_integer (stock p + q) \<longrightarrow> stock p' = stock p + q)"
    by (simp add: updateStock_def round_double_safe)
qed

theorem updateStock_keeps_stock_nonneg_witness:
  "map_option stock (snd (updateStock demo_catalog 1 5 ''decrease'') 1) = Some 0 \<and>
   updateStock demo_catalog 1 6 ''decrease'' = (Inl (BadRequest ''Insufficient stock''), demo_catalog) \<and>
   map_option stock (snd (updateStock demo_catalog 1 6 ''increase'') 1) = Some 11"
proof -
  have p: "demo_catalog 1 = Some demo_product" by (simp add: demo_catalog_def)
  have s: "stock demo_product = 5" by (simp add: demo_product_def)
  have q: "(0::int) \<le> 6" by simp
  note t = updateStock_keeps_stock_nonneg [OF demo_catalog_nonneg q, of 1 "''decrease''"]
  from t p s have 2: "updateStock demo_catalog 1 6 ''decrease'' =
      (Inl (BadRequest ''Insufficient stock''), demo_catalog)" by simp
  have safe: "safe_integer (stock demo_product)" "safe_integer 6"
    "safe_integer (stock demo_product + 6)"
    by (simp_all add: safe_integer_def demo_product_def)
  from t p safe obtain p' where "snd (updateStock demo_catalog 1 6 ''increase'') 1 = Some p'"
    and "stock p' = stock demo_product + 6" by blast
  with s have 3: "map_option stock (snd (updateStock demo_catalog 1 6 ''increase'') 1) = Some 11"
    by simp
  have 1: "map_option stock (snd (updateStock demo_catalog 1 5 ''decrease'') 1) = Some 0"
    by (simp add: updateStock_def demo_catalog_def demo_product_def round_double_exact)
  from 1 2 3 show ?thesis by simp
qed

section \<open>Checkout of an empty cart\<close>

text \<open>
  Claim C4. When the user has no cart document, or a cart with zero lines, the checkout
  answers 400 \<open>Cart is empty\<close> and the system is exactly as before: no order is stored,
  no stock is changed and no notification is sent.
\<close>

theorem createOrder_empty_cart:
  assumes "carts w u = None \<or> (\<exists>c. carts w u = Some c \<and> cart_items c = [])"
  shows "createOrder n new_id now u addr w = (Inl (BadRequest ''Cart is empty''), w)"
  using assms by (auto simp: createOrder_def)

theorem createOrder_empty_cart_witness:
  "createOrder no_faults 100 50 7 demo_address no_cart_world =
     (Inl (BadRequest ''Cart is empty''), no_cart_world) \<and>
   createOrder no_faults 100 50 7 demo_address (demo_world []) =
     (Inl (BadRequest ''Cart is empty''), demo_world [])"
proof -
  have a: "carts no_cart_world 7 = None \<or> (\<exists>c. carts no_cart_world 7 = Some c \<and> cart_items c = [])"
    by (simp add: no_cart_world_def)
  have b: "carts (demo_world []) 7 = None \<or>
      (\<exists>c. carts (demo_world []) 7 = Some c \<and> cart_items c = [])"
    by (simp add: demo_world_def)
  show ?thesis
    using createOrder_empty_cart [OF a] createOrder_empty_cart [OF b] by simp
qed

section \<open>Reading orders\<close>

lemma find_Some_D: "find P xs = Some x \<Longrightarrow> x \<in> set xs \<and> P x"
  by (induction xs) (auto split: if_splits)

lemma getOrder_unique_owner:
  assumes d: "distinct (map orderId os)" and m: "ord \<in> set os" and o: "userId ord \<noteq> u"
  shows "find (\<lambda>x. orderId x = orderId ord \<and> userId x = u) os = None"
proof -
  have "x = ord" if "x \<in> set os" "orderId x = orderId ord" for x
    using d m that by (meson distinct_map inj_on_eq_iff)
  with o show ?thesis by (auto simp: find_None_iff)
qed

text \<open>
  Claim C7. An order returned by the single-order read is a stored order with the
  requested id and owned by the caller. With the ids of the collection unique, asking
  for a stored order as any user but its owner answers 404 \<open>Order not found\<close>. The list
  read returns exactly the caller's orders, newest \<open>createdAt\<close> first.
\<close>

theorem order_reads_scoped:
  "(\<forall>ord. getOrder i u w = Inr ord \<longrightarrow> ord \<in> set (orders w) \<and> orderId ord = i \<and> userId ord = u) \<and>
   (\<forall>ord. distinct (map orderId (orders w)) \<and> ord \<in> set (orders w) \<and> userId ord \<noteq> u \<longrightarrow>
      getOrder (orderId ord) u w = Inl (NotFound ''Order not found'')) \<and>
   mset (getOrders u w) = mset (filter (\<lambda>ord. userId ord = u) (orders w)) \<and>
   sorted_wrt (\<lambda>a b. createdAt b \<le> createdAt a) (getOrders u w)"
proof -
  have own: "ord \<in> set (orders w) \<and> orderId ord = i \<and> userId ord = u"
    if "getOrder i u w = Inr ord" for ord
  proof -
    from that have "find (\<lambda>x. orderId x = i \<and> userId x = u) (orders w) = Some ord"
      by (simp add: getOrder_def split: option.splits)
    then show ?thesis by (auto dest: find_Some_D)
  qed
  have other: "getOrder (orderId ord) u w = Inl (NotFound ''Order not found'')"
    if "distinct (map orderId (orders w)) \<and> ord \<in> set (orders w) \<and> userId ord \<noteq> u" for ord
    using that by (simp add: getOrder_def getOrder_unique_owner)
  have all: "mset (getOrders u w) = mset (filter (\<lambda>ord. userId ord = u) (orders w))"
    by (simp add: getOrders_def)
  have "sorted (map createdAt (sort_key createdAt (filter (\<lambda>ord. userId ord = u) (orders w))))"
    by (rule sorted_sort_key)
  then have "sorted_wrt (\<lambda>a b. createdAt a \<le> createdAt b)
               (sort_key createdAt (filter (\<lambda>ord. userId ord = u) (orders w)))"
    by (simp add: sorted_map)
  then have desc: "sorted_wrt (\<lambda>a b. createdAt b \<le> createdAt a) (getOrders u w)"
    by (simp add: getOrders_def sorted_wrt_rev)
  from own other all desc show ?thesis by blast
qed

theorem order_reads_scoped_witness:
  "getOrder 2 7 orders_world = Inl (NotFound ''Order not found'') \<and>
   getOrder 2 8 orders_world = Inr (order_of 2 8 20) \<and>
   getOrders 7 orders_world = [order_of 3 7 30, order_of 1 7 10]"
proof -
  have h: "distinct (map orderId (orders orders_world)) \<and>
      order_of 2 8 20 \<in> set (orders orders_world) \<and> userId (order_of 2 8 20) \<noteq> 7"
    by (simp add: orders_world_def order_of_def)
  from order_reads_scoped [of 2 7 orders_world] h
  have "getOrder (orderId (order_of 2 8 20)) 7 orders_world = Inl (NotFound ''Order not found'')"
    by blast
  then show ?thesis
    by (simp add: getOrder_def getOrders_def orders_world_def order_of_def)
qed

section \<open>Updating the status of an order\<close>

lemma find_update_first:
  "find P xs = Some x \<Longrightarrow> P (f x) \<Longrightarrow> find P (update_first P f xs) = Some (f x)"
  by (induction xs) (auto split: if_splits)

lemma filter_update_first:
  "(\<And>x. P x \<Longrightarrow> P (f x)) \<Longrightarrow>
   filter (\<lambda>x. \<not> P x) (update_first P f xs) = filter (\<lambda>x. \<not> P x) xs"
  by (induction xs) auto

lemma length_update_first: "length (update_first P f xs) = length xs"
  by (induction xs) auto

lemma send_notification_keeps:
  "products (send_notification n msg w) = products w \<and>
   carts (send_notification n msg w) = carts w \<and>
   orders (send_notification n msg w) = orders w"
  by (simp add: send_notification_def)

text \<open>
  Claim C6. When no stored order has the requested id together with the caller as owner
  (there is none with that id, or it belongs to someone else), the status update answers
  404 \<open>Order not found\<close> and changes nothing. Otherwise the order found gets the new
  status and the current time as \<open>updatedAt\<close>, whatever its status was and whatever the
  new one is; the updated order is the reply and is what a later read returns; the other
  orders, the catalog and the carts are untouched.
\<close>

theorem updateStatus_contract:
  "((\<forall>ord \<in> set (orders w). \<not> (orderId ord = i \<and> userId ord = u)) \<longrightarrow>
      updateStatus n now i u s w = (Inl (NotFound ''Order not found''), w)) \<and>
   (\<forall>ord. find (\<lambda>x. orderId x = i \<and> userId x = u) (orders w) = Some ord \<longrightarrow>
      (\<exists>w'. updateStatus n now i u s w = (Inr (ord\<lparr>status := s, updatedAt := now\<rparr>), w') \<and>
            getOrder i u w' = Inr (ord\<lparr>status := s, updatedAt := now\<rparr>) \<and>
            length (orders w') = length (orders w) \<and>
            filter (\<lambda>x. \<not> (orderId x = i \<and> userId x = u)) (orders w') =
              filter (\<lambda>x. \<not> (orderId x = i \<and> userId x = u)) (orders w) \<and>
            products w' = products w \<and> carts w' = carts w))"
proof -
  let ?P = "\<lambda>x. orderId x = i \<and> userId x = u"
  let ?f = "\<lambda>x. x\<lparr>status := s, updatedAt := now\<rparr>"
  have none: "updateStatus n now i u s w = (Inl (NotFound ''Order not found''), w)"
    if "\<forall>ord \<in> set (orders w). \<not> ?P ord"
  proof -
    from that have "find ?P (orders w) = None" by (simp add: find_None_iff)
    then show ?thesis by (simp add: updateStatus_def)
  qed
  have some: "\<exists>w'. updateStatus n now i u s w = (Inr (?f ord), w') \<and>
            getOrder i u w' = Inr (?f ord) \<and>
            length (orders w') = length (orders w) \<and>
            filter (\<lambda>x. \<not> ?P x) (orders w') = filter (\<lambda>x. \<not> ?P x) (orders w) \<and>
            products w' = products w \<and> carts w' = carts w"
    if f: "find ?P (orders w) = Some ord" for ord
  proof -
    from f have P: "?P ord" by (auto dest: find_Some_D)
    then have Pf: "?P (?f ord)" by simp
    have "find ?P (update_first ?P ?f (orders w)) = Some (?f ord)"
      using f Pf by (rule find_update_first [where P = "?P" and f = "?f"])
    moreover have "filter (\<lambda>x. \<not> ?P x) (update_first ?P ?f (orders w)) = filter (\<lambda>x. \<not> ?P x) (orders w)"
      by (rule filter_update_first) simp
    ultimately show ?thesis using f
      by (simp add: updateStatus_def getOrder_def send_notification_keeps length_update_first)
  qed
  from none some show ?thesis by blast
qed

theorem updateStatus_contract_witness:
  "updateStatus no_faults 99 2 7 Shipped orders_world = (Inl (NotFound ''Order not found''), orders_world) \<and>
   fst (updateStatus no_faults 99 1 7 Delivered orders_world) =
     Inr ((order_of 1 7 10)\<lparr>status := Delivered, updatedAt := 99\<rparr>) \<and>
   getOrder 1 7 (snd (updateStatus no_faults 99 1 7 Delivered orders_world)) =
     Inr ((order_of 1 7 10)\<lparr>status := Delivered, updatedAt := 99\<rparr>) \<and>
   fst (updateStatus no_faults 120 1 7 Pending
          (snd (updateStatus no_faults 99 1 7 Delivered orders_world))) =
     Inr ((order_of 1 7 10)\<lparr>status := Pending, updatedAt := 120\<rparr>)"
proof -
  have a: "\<forall>ord \<in> set (orders orders_world). \<not> (orderId ord = 2 \<and> userId ord = 7)"
    by (simp add: orders_world_def order_of_def)
  have b: "find (\<lambda>x. orderId x = 1 \<and> userId x = 7) (orders orders_world) = Some (order_of 1 7 10)"
    by (simp add: orders_world_def order_of_def)
  from updateStatus_contract [of orders_world 2 7 no_faults 99 Shipped] a
  have 1: "updateStatus no_faults 99 2 7 Shipped orders_world =
      (Inl (NotFound ''Order not found''), orders_world)" by blast
  from updateStatus_contract [of orders_world 1 7 no_faults 99 Delivered] b
  obtain w' where 2: "updateStatus no_faults 99 1 7 Delivered orders_world =
      (Inr ((order_of 1 7 10)\<lparr>status := Delivered, updatedAt := 99\<rparr>), w')"
    and 3: "getOrder 1 7 w' = Inr ((order_of 1 7 10)\<lparr>status := Delivered, updatedAt := 99\<rparr>)"
    by blast
  from 3 have c: "find (\<lambda>x. orderId x = 1 \<and> userId x = 7) (orders w') =
      Some ((order_of 1 7 10)\<lparr>status := Delivered, updatedAt := 99\<rparr>)"
    by (simp add: getOrder_def split: option.splits)
  from updateStatus_contract [of w' 1 7 no_faults 120 Pending] c
  have 4: "fst (updateStatus no_faults 120 1 7 Pending w') =
      Inr ((order_of 1 7 10)\<lparr>status := Pending, updatedAt := 120\<rparr>)"
    by auto
  from 1 2 3 4 show ?thesis by simp
qed

section \<open>The cart view\<close>






section \<open>Adding to the cart\<close>

lemma addItem_new_line:
  assumes cast: "id_cast lib s = Some i"
    and found: "axios_get n (products w) i = Some found"
    and fresh: "find (\<lambda>item. id_text lib (productId item) = s) (lines_of w u) = None"
  shows "addItem lib n now u s (Some (Num q)) w =
     (Inr \<lparr>cart_items = lines_of w u @ [\<lparr>productId = i, quantity = q\<rparr>], cart_updatedAt = now\<rparr>,
      w\<lparr>carts := (carts w)(u \<mapsto>
           \<lparr>cart_items = lines_of w u @ [\<lparr>productId = i, quantity = q\<rparr>], cart_updatedAt = now\<rparr>)\<rparr>)"
  using assms
  by (cases "carts w u") (simp_all add: addItem_def lines_of_def cast_number_def Let_def)

lemma addItem_existing_line:
  assumes cast: "id_cast lib s = Some i"
    and found: "axios_get n (products w) i = Some found"
    and line: "find (\<lambda>item. id_text lib (productId item) = s) (lines_of w u) = Some l"
  shows "addItem lib n now u s (Some (Num q)) w =
     (Inr \<lparr>cart_items = set_first_quantity (\<lambda>item. id_text lib (productId item) = s)
                           (round_double (quantity l + q)) (lines_of w u),
           cart_updatedAt = now\<rparr>,
      w\<lparr>carts := (carts w)(u \<mapsto>
           \<lparr>cart_items = set_first_quantity (\<lambda>item. id_text lib (productId item) = s)
                           (round_double (quantity l + q)) (lines_of w u),
            cart_updatedAt = now\<rparr>)\<rparr>)"
proof (cases "carts w u")
  case None
  with line show ?thesis by (simp add: lines_of_def)
next
  case (Some c)
  with line have "find (\<lambda>item. id_text lib (productId item) = s) (cart_items c) = Some l"
    by (simp add: lines_of_def)
  with Some cast found show ?thesis
    by (simp add: addItem_def lines_of_def cast_number_def js_plus_def Let_def)
qed

text \<open>
  Claim C5, where the code departs from it. Take a spelling of a product id that the
  library casts to the id but does not print for it, as the uppercase hexadecimal
  spelling is for the driver's ObjectId, and a user without a cart. Adding the product
  twice under that spelling, with the quantities \<open>q1\<close> and \<open>q2\<close>, stores a cart of two
  lines for the one product, not one line with the sum.
\<close>

theorem addItem_second_line:
  assumes cast: "id_cast lib s = Some i" and spelled: "id_text lib i \<noteq> s"
    and found: "axios_get n (products w) i = Some found"
    and none: "carts w u = None"
  shows "\<exists>c1 w1 c2 w2.
           addItem lib n t1 u s (Some (Num q1)) w = (Inr c1, w1) \<and>
           addItem lib n t2 u s (Some (Num q2)) w1 = (Inr c2, w2) \<and>
           carts w2 u = Some c2 \<and>
           cart_items c2 = [\<lparr>productId = i, quantity = q1\<rparr>, \<lparr>productId = i, quantity = q2\<rparr>]"
proof -
  let ?c1 = "\<lparr>cart_items = [\<lparr>productId = i, quantity = q1\<rparr>], cart_updatedAt = t1\<rparr>"
  let ?w1 = "w\<lparr>carts := (carts w)(u \<mapsto> ?c1)\<rparr>"
  let ?c2 = "\<lparr>cart_items = [\<lparr>productId = i, quantity = q1\<rparr>, \<lparr>productId = i, quantity = q2\<rparr>],
              cart_updatedAt = t2\<rparr>"
  from none have l0: "lines_of w u = []" by (simp add: lines_of_def)
  then have "find (\<lambda>item. id_text lib (productId item) = s) (lines_of w u) = None" by simp
  from addItem_new_line [OF cast found this, of t1 q1] l0
  have first: "addItem lib n t1 u s (Some (Num q1)) w = (Inr ?c1, ?w1)" by simp
  have l1: "lines_of ?w1 u = [\<lparr>productId = i, quantity = q1\<rparr>]" by (simp add: lines_of_def)
  with spelled have fresh: "find (\<lambda>item. id_text lib (productId item) = s) (lines_of ?w1 u) = None"
    by simp
  from found have found1: "axios_get n (products ?w1) i = Some found" by simp
  from addItem_new_line [OF cast found1 fresh, of t2 q2] l1
  have second: "addItem lib n t2 u s (Some (Num q2)) ?w1 =
      (Inr ?c2, ?w1\<lparr>carts := (carts ?w1)(u \<mapsto> ?c2)\<rparr>)" by simp
  have "carts (?w1\<lparr>carts := (carts ?w1)(u \<mapsto> ?c2)\<rparr>) u = Some ?c2" by simp
  moreover have "cart_items ?c2 =
      [\<lparr>productId = i, quantity = q1\<rparr>, \<lparr>productId = i, quantity = q2\<rparr>]" by simp
  ultimately show ?thesis using first second by blast
qed

lemma to_hex_numeral:
  "to_hex (numeral k) v = to_hex (pred_numeral k) (v div 16) @ [hex_digit (v mod 16)]"
  by (simp only: numeral_eq_Suc [of k] to_hex.simps)

lemma to_hex_1: "to_hex 1 v = [hex_digit (v mod 16)]"
  by (simp only: One_nat_def to_hex.simps append_Nil)

lemma demo_lib_ab:
  "id_cast demo_lib ''0000000000000000000000AB'' = Some 171 \<and>
   id_cast demo_lib ''0000000000000000000000ab'' = Some 171 \<and>
   id_text demo_lib 171 = ''0000000000000000000000ab''"
  by (simp add: demo_lib_def hex_value_def to_hex_numeral to_hex_1 hex_digit_def)

theorem addItem_second_line_witness:
  "map_option cart_items
     (carts (snd (addItem demo_lib no_faults 2 7 ''0000000000000000000000AB'' (Some (Num 3))
                    (snd (addItem demo_lib no_faults 1 7 ''0000000000000000000000AB''
                            (Some (Num 2)) hex_world)))) 7) =
     Some [\<lparr>productId = 171, quantity = 2\<rparr>, \<lparr>productId = 171, quantity = 3\<rparr>]"
proof -
  from demo_lib_ab have cast: "id_cast demo_lib ''0000000000000000000000AB'' = Some 171"
    and spelled: "id_text demo_lib 171 \<noteq> ''0000000000000000000000AB''" by simp_all
  have found: "axios_get no_faults (products hex_world) 171 = Some demo_product"
    by (simp add: axios_get_def getProduct_def no_faults_def hex_world_def)
  have none: "carts hex_world 7 = None" by (simp add: hex_world_def)
  from addItem_second_line [OF cast spelled found none, of 1 2 2 3]
  obtain c1 w1 c2 w2 where
    "addItem demo_lib no_faults 1 7 ''0000000000000000000000AB'' (Some (Num 2)) hex_world = (Inr c1, w1)"
    "addItem demo_lib no_faults 2 7 ''0000000000000000000000AB'' (Some (Num 3)) w1 = (Inr c2, w2)"
    "carts w2 7 = Some c2"
    "cart_items c2 = [\<lparr>productId = 171, quantity = 2\<rparr>, \<lparr>productId = 171, quantity = 3\<rparr>]"
    by blast
  then show ?thesis by simp
qed

text \<open>
  Under the spelling that the library prints, the same two requests give the one line
  with quantity 5; and a quantity sent as the string \<open>3\<close> is appended to the text of the
  stored quantity 2, which gives 23.
\<close>

lemma addItem_canonical_example:
  "map_option cart_items
     (carts (snd (addItem demo_lib no_faults 2 7 ''0000000000000000000000ab'' (Some (Num 3))
                    (snd (addItem demo_lib no_faults 1 7 ''0000000000000000000000ab''
                            (Some (Num 2)) hex_world)))) 7) =
     Some [\<lparr>productId = 171, quantity = 5\<rparr>]"
  using demo_lib_ab
  by (simp add: addItem_def axios_get_def getProduct_def no_faults_def hex_world_def
      cast_number_def js_plus_def round_double_exact Let_def)

lemma addItem_text_quantity_example:
  "map_option cart_items
     (carts (snd (addItem demo_lib no_faults 2 7 ''0000000000000000000000ab'' (Some (Str ''3''))
                    (snd (addItem demo_lib no_faults 1 7 ''0000000000000000000000ab''
                            (Some (Num 2)) hex_world)))) 7) =
     Some [\<lparr>productId = 171, quantity = 23\<rparr>]"
proof -
  have "num_cast demo_lib (num_text demo_lib 2 @ ''3'') = Some 23"
    by (simp add: demo_lib_def to_dec.simps dec_digit_def dec_value_def round_double_exact)
  with demo_lib_ab show ?thesis
    by (simp add: addItem_def axios_get_def getProduct_def no_faults_def hex_world_def
        cast_number_def js_plus_def Let_def)
qed

text \<open>
  For a request id in the spelling that the library prints, on a cart with at most one
  line per product, adding is the upsert of the claim as long as the sum is a double:
  the line of the product has the quantity added, or a new line is appended, and the
  cart again has at most one line per product.
\<close>

lemma set_first_quantity_distinct:
  assumes d: "distinct (map productId ls)" and l: "l \<in> set ls" and i: "productId l = i"
  shows "set_first_quantity (\<lambda>item. productId item = i) (quantity l + q) ls =
         map (\<lambda>x. if productId x = i then x\<lparr>quantity := quantity x + q\<rparr> else x) ls"
  using assms
proof (induction ls)
  case Nil
  then show ?case by simp
next
  case (Cons a ls)
  show ?case
  proof (cases "productId a = i")
    case True
    from Cons.prems(1) have "productId a \<notin> productId ` set ls" by simp
    with True have other: "\<forall>x \<in> set ls. productId x \<noteq> i" by (auto simp: image_iff)
    with Cons.prems(2,3) have "l = a" by auto
    moreover from other
    have "map (\<lambda>x. if productId x = i then x\<lparr>quantity := quantity x + q\<rparr> else x) ls = ls"
      by (simp add: map_idI)
    ultimately show ?thesis using True by simp
  next
    case False
    with Cons.prems have "l \<in> set ls" by auto
    with Cons False show ?thesis by simp
  qed
qed

lemma set_first_quantity_cong:
  "\<forall>l \<in> set ls. P l = Q l \<Longrightarrow> set_first_quantity P v ls = set_first_quantity Q v ls"
  by (induction ls) auto

lemma map_bump_ids:
  "map productId (map (\<lambda>x. if productId x = i then x\<lparr>quantity := quantity x + q\<rparr> else x) ls) =
   map productId ls"
  by (induction ls) auto

lemma addItem_canonical_upserts:
  assumes cast: "id_cast lib s = Some i"
    and canon: "\<forall>l \<in> set (lines_of w u). (id_text lib (productId l) = s) = (productId l = i)"
    and found: "axios_get n (products w) i = Some found"
    and d: "distinct (map productId (lines_of w u))"
    and exact: "\<forall>l \<in> set (lines_of w u). productId l = i \<longrightarrow> \<bar>quantity l + q\<bar> \<le> 2 ^ 53"
  shows "\<exists>c'. addItem lib n now u s (Some (Num q)) w = (Inr c', w\<lparr>carts := (carts w)(u \<mapsto> c')\<rparr>) \<and>
           cart_items c' = upsert_line (lines_of w u) i q \<and>
           distinct (map productId (cart_items c'))"
proof (cases "find (\<lambda>item. id_text lib (productId item) = s) (lines_of w u)")
  case None
  then have "\<forall>l \<in> set (lines_of w u). id_text lib (productId l) \<noteq> s"
    by (simp add: find_None_iff)
  with canon have no: "i \<notin> productId ` set (lines_of w u)" by auto
  with d addItem_new_line [OF cast found None, of now q] show ?thesis
    by (simp add: upsert_line_def)
next
  case (Some l)
  then have l: "l \<in> set (lines_of w u)" and "id_text lib (productId l) = s"
    by (auto dest: find_Some_D)
  with canon have i: "productId l = i" by blast
  from canon have same: "set_first_quantity (\<lambda>item. id_text lib (productId item) = s) v (lines_of w u) =
      set_first_quantity (\<lambda>item. productId item = i) v (lines_of w u)" for v
    by (rule set_first_quantity_cong)
  from exact l i have "round_double (quantity l + q) = quantity l + q"
    by (simp add: round_double_exact)
  with same have items: "set_first_quantity (\<lambda>item. id_text lib (productId item) = s)
        (round_double (quantity l + q)) (lines_of w u) =
      map (\<lambda>x. if productId x = i then x\<lparr>quantity := quantity x + q\<rparr> else x) (lines_of w u)"
    by (simp add: set_first_quantity_distinct [OF d l i])
  from d have dd: "distinct (map productId
      (map (\<lambda>x. if productId x = i then x\<lparr>quantity := quantity x + q\<rparr> else x) (lines_of w u)))"
    by (simp only: map_bump_ids)
  from l i have "i \<in> productId ` set (lines_of w u)" by auto
  with dd items addItem_existing_line [OF cast found Some, of now q] show ?thesis
    by (simp add: upsert_line_def)
qed

section \<open>Checkout\<close>

text \<open>The definitions to unfold when a handler is run on one of the concrete inputs.\<close>

lemmas demo_defs = demo_world_def demo_catalog_def demo_product_def demo_address_def
  no_faults_def no_address_def patch_down_def widget_item_def

lemmas handler_defs = createOrder_def axios_get_def getProduct_def axios_patch_def
  updateStock_def validate_order_def required_fields_def required_def send_notification_def
  new_order_def Let_def round_double_exact

lemma run_ok:
  "createOrder no_faults 100 50 7 demo_address (demo_world [\<lparr>productId = 1, quantity = 2\<rparr>]) =
     (Inr (new_order 100 50 7 demo_address [widget_item 2] 20),
      snd (createOrder no_faults 100 50 7 demo_address (demo_world [\<lparr>productId = 1, quantity = 2\<rparr>])))"
  by (simp add: handler_defs demo_defs)

lemma order_lines_Inr:
  "order_lines n cat ls acc tot = Inr (its, t) \<Longrightarrow>
     (\<forall>l \<in> set ls. sufficient n cat l) \<and>
     its = acc @ List.map_filter (snapshot n cat) ls \<and>
     t = tot + sum_list (map (\<lambda>it. item_price it * quantity it) (List.map_filter (snapshot n cat) ls)) \<and>
     map productId (List.map_filter (snapshot n cat) ls) = map productId ls \<and>
     map quantity (List.map_filter (snapshot n cat) ls) = map quantity ls"
proof (induction ls arbitrary: acc tot)
  case Nil
  then show ?case by simp
next
  case (Cons l ls)
  from Cons.prems obtain p where p: "axios_get n cat (productId l) = Some p"
    by (cases "axios_get n cat (productId l)") auto
  with Cons.prems have ok: "\<not> stock p < quantity l" by (auto split: if_splits)
  with Cons.prems p have rest: "order_lines n cat ls
      (acc @ [\<lparr>productId = productId l, quantity = quantity l,
                item_name = name p, item_price = price p, item_image = image p\<rparr>])
      (tot + price p * quantity l) = Inr (its, t)" by simp
  from Cons.IH [OF rest] p ok show ?case
    by (simp add: snapshot_def sufficient_def)
qed

lemma order_lines_sufficient:
  "\<forall>l \<in> set ls. sufficient n cat l \<Longrightarrow>
   order_lines n cat ls acc tot =
     Inr (acc @ List.map_filter (snapshot n cat) ls,
          tot + sum_list (map (\<lambda>it. item_price it * quantity it) (List.map_filter (snapshot n cat) ls)))"
proof (induction ls arbitrary: acc tot)
  case Nil
  then show ?case by simp
next
  case (Cons l ls)
  from Cons.prems obtain p where p: "axios_get n cat (productId l) = Some p" and ok: "quantity l \<le> stock p"
    by (auto simp: sufficient_def split: option.splits)
  from Cons.prems have "\<forall>l \<in> set ls. sufficient n cat l" by simp
  from Cons.IH [OF this] p ok show ?case
    by (simp add: snapshot_def)
qed

lemma order_lines_short:
  assumes "\<forall>l \<in> set ls. axios_get n cat (productId l) \<noteq> None"
    and "find (\<lambda>l. \<not> sufficient n cat l) ls = Some l"
  shows "\<exists>p. axios_get n cat (productId l) = Some p \<and>
     order_lines n cat ls acc tot = Inl (BadRequest (''Insufficient stock for '' @ name p))"
  using assms
proof (induction ls arbitrary: acc tot)
  case Nil
  then show ?case by simp
next
  case (Cons a ls)
  from Cons.prems(1) obtain p where p: "axios_get n cat (productId a) = Some p" by auto
  show ?case
  proof (cases "sufficient n cat a")
    case True
    with Cons.prems(2) have f: "find (\<lambda>l. \<not> sufficient n cat l) ls = Some l" by simp
    from Cons.prems(1) have r: "\<forall>l \<in> set ls. axios_get n cat (productId l) \<noteq> None" by simp
    from True p have "\<not> stock p < quantity a" by (simp add: sufficient_def)
    with Cons.IH [OF r f] p show ?thesis by simp
  next
    case False
    with Cons.prems(2) have "l = a" by simp
    moreover from False p have "stock p < quantity a" by (simp add: sufficient_def)
    ultimately show ?thesis using p by simp
  qed
qed


lemma axios_patch_ok:
  "\<not> patch_fails n i \<Longrightarrow> cat i = Some p \<Longrightarrow> q \<le> stock p \<Longrightarrow>
   axios_patch n cat i q ''decrease'' =
     (True, cat(i \<mapsto> p\<lparr>stock := round_double (stock p - q)\<rparr>))"
  by (simp add: axios_patch_def updateStock_def)


lemma decrease_stock_ok:
  "distinct (map productId its) \<Longrightarrow>
   \<forall>it \<in> set its. \<not> patch_fails n (productId it) \<and>
      (\<exists>p. cat (productId it) = Some p \<and> quantity it \<le> stock p) \<Longrightarrow>
   fst (decrease_stock n cat its)"
proof (induction its arbitrary: cat)
  case Nil
  then show ?case by simp
next
  case (Cons it its)
  from Cons.prems(2) obtain p where nf: "\<not> patch_fails n (productId it)"
    and p: "cat (productId it) = Some p" and q: "quantity it \<le> stock p" by auto
  let ?cat1 = "cat(productId it \<mapsto> p\<lparr>stock := round_double (stock p - quantity it)\<rparr>)"
  from Cons.prems(1) have d: "distinct (map productId its)"
    and "productId it \<notin> productId ` set its" by simp_all
  then have ne: "\<forall>x \<in> set its. productId x \<noteq> productId it" by (auto simp: image_iff)
  from Cons.prems(2) ne
  have "\<forall>x \<in> set its. \<not> patch_fails n (productId x) \<and>
      (\<exists>p. ?cat1 (productId x) = Some p \<and> quantity x \<le> stock p)" by simp
  with d have "fst (decrease_stock n ?cat1 its)" by (rule Cons.IH)
  with nf p q show ?case by (simp add: axios_patch_ok)
qed

lemma axios_get_stored: "axios_get n cat i = Some p \<Longrightarrow> cat i = Some p"
  by (auto simp: axios_get_def getProduct_def split: if_splits option.splits)

lemma snapshot_member:
  "it \<in> set (List.map_filter (snapshot n cat) ls) \<Longrightarrow>
   \<exists>l \<in> set ls. productId it = productId l \<and> quantity it = quantity l"
  by (induction ls) (auto simp: snapshot_def split: option.splits)

lemma decrease_stock_fails:
  "\<exists>it \<in> set its. patch_fails n (productId it) \<Longrightarrow> \<not> fst (decrease_stock n cat its)"
proof (induction its arbitrary: cat)
  case Nil
  then show ?case by simp
next
  case (Cons it its)
  show ?case
  proof (cases "axios_patch n cat (productId it) (quantity it) ''decrease''")
    case (Pair ok cat1)
    show ?thesis
    proof (cases ok)
      case False
      with Pair show ?thesis by simp
    next
      case True
      with Pair have "\<not> patch_fails n (productId it)"
        by (auto simp: axios_patch_def split: if_splits)
      with Cons.prems have "\<exists>x \<in> set its. patch_fails n (productId x)" by simp
      then have "\<not> fst (decrease_stock n cat1 its)" by (rule Cons.IH)
      with Pair True show ?thesis by simp
    qed
  qed
qed

lemma createOrder_cases:
  assumes "carts w u = Some c" and "cart_items c \<noteq> []"
  shows "createOrder n new_id now u addr w =
     (case order_lines n (products w) (cart_items c) [] 0 of
        Inl e \<Rightarrow> (Inl e, w)
      | Inr (its, t) \<Rightarrow>
          if \<not> required_fields addr then (Inl ServerError, w)
          else if fst (decrease_stock n (products w) its) then
            (Inr (new_order new_id now u addr its t),
             send_notification n \<lparr>ntype = Order_created, nuserId = u, norderId = new_id\<rparr>
               (w\<lparr>orders := orders w @ [new_order new_id now u addr its t],
                  products := snd (decrease_stock n (products w) its),
                  carts := (carts w)(u := None)\<rparr>))
          else (Inl ServerError,
                w\<lparr>orders := orders w @ [new_order new_id now u addr its t],
                  products := snd (decrease_stock n (products w) its)\<rparr>))"
  using assms
  by (auto simp: createOrder_def Let_def new_order_def validate_order_def
      split: sum.splits prod.splits bool.splits)

lemma createOrder_Inr_cart:
  assumes "createOrder n new_id now u addr w = (Inr ord, w')"
  shows "\<exists>c. carts w u = Some c \<and> cart_items c \<noteq> []"
  using assms by (auto simp: createOrder_def split: option.splits if_splits)



text \<open>
  Claim C1, amended. Take a cart with at least one line, every product lookup of which
  succeeds. If some line asks for more than the stock of its product, the checkout
  answers 400 \<open>Insufficient stock for\<close> the name of the product of the first such line,
  and the system is exactly as before: no order, no stock change, the cart untouched.
  A checkout that succeeds had every quantity within stock. When every quantity is within
  stock, the checkout succeeds provided the shipping address has its six required fields,
  the cart has at most one line per product and no stock update fails in transit.
\<close>

theorem createOrder_stock_check:
  assumes c: "carts w u = Some c" and ne: "cart_items c \<noteq> []"
    and res: "\<forall>l \<in> set (cart_items c). axios_get n (products w) (productId l) \<noteq> None"
  shows "((\<exists>l \<in> set (cart_items c). \<not> sufficient n (products w) l) \<longrightarrow>
            (\<exists>l p. find (\<lambda>l. \<not> sufficient n (products w) l) (cart_items c) = Some l \<and>
                   axios_get n (products w) (productId l) = Some p \<and>
                   createOrder n new_id now u addr w =
                     (Inl (BadRequest (''Insufficient stock for '' @ name p)), w))) \<and>
         ((\<exists>ord w'. createOrder n new_id now u addr w = (Inr ord, w')) \<longrightarrow>
            (\<forall>l \<in> set (cart_items c). sufficient n (products w) l)) \<and>
         ((\<forall>l \<in> set (cart_items c). sufficient n (products w) l) \<and> required_fields addr \<and>
          distinct (map productId (cart_items c)) \<and>
          (\<forall>l \<in> set (cart_items c). \<not> patch_fails n (productId l)) \<longrightarrow>
            (\<exists>ord w'. createOrder n new_id now u addr w = (Inr ord, w')))"
proof -
  let ?ls = "cart_items c"
  let ?cat = "products w"
  have short: "\<exists>l p. find (\<lambda>l. \<not> sufficient n ?cat l) ?ls = Some l \<and>
                   axios_get n ?cat (productId l) = Some p \<and>
                   createOrder n new_id now u addr w =
                     (Inl (BadRequest (''Insufficient stock for '' @ name p)), w)"
    if "\<exists>l \<in> set ?ls. \<not> sufficient n ?cat l"
  proof -
    from that obtain l where f: "find (\<lambda>l. \<not> sufficient n ?cat l) ?ls = Some l"
      by (cases "find (\<lambda>l. \<not> sufficient n ?cat l) ?ls") (auto simp: find_None_iff)
    from order_lines_short [OF res f, of "[]" 0] obtain p
      where p: "axios_get n ?cat (productId l) = Some p"
        and o: "order_lines n ?cat ?ls [] 0 = Inl (BadRequest (''Insufficient stock for '' @ name p))"
      by blast
    from o have "createOrder n new_id now u addr w =
        (Inl (BadRequest (''Insufficient stock for '' @ name p)), w)"
      by (simp add: createOrder_cases [OF c ne])
    with f p show ?thesis by blast
  qed
  have only: "\<forall>l \<in> set ?ls. sufficient n ?cat l"
    if "\<exists>ord w'. createOrder n new_id now u addr w = (Inr ord, w')"
  proof (rule ccontr)
    assume "\<not> (\<forall>l \<in> set ?ls. sufficient n ?cat l)"
    then have "\<exists>l \<in> set ?ls. \<not> sufficient n ?cat l" by blast
    from short [OF this] that show False by auto
  qed
  have enough: "\<exists>ord w'. createOrder n new_id now u addr w = (Inr ord, w')"
    if h: "(\<forall>l \<in> set ?ls. sufficient n ?cat l) \<and> required_fields addr \<and>
          distinct (map productId ?ls) \<and> (\<forall>l \<in> set ?ls. \<not> patch_fails n (productId l))"
  proof -
    let ?its = "List.map_filter (snapshot n ?cat) ?ls"
    let ?t = "sum_list (map (\<lambda>it. item_price it * quantity it) ?its)"
    from h have suff: "\<forall>l \<in> set ?ls. sufficient n ?cat l" by blast
    from order_lines_sufficient [OF suff, of "[]" 0]
    have ol: "order_lines n ?cat ?ls [] 0 = Inr (?its, ?t)" by simp
    from order_lines_Inr [OF ol] have ids: "map productId ?its = map productId ?ls" by simp
    with h have d: "distinct (map productId ?its)" by simp
    have each: "\<forall>it \<in> set ?its. \<not> patch_fails n (productId it) \<and>
        (\<exists>p. ?cat (productId it) = Some p \<and> quantity it \<le> stock p)"
    proof
      fix it assume "it \<in> set ?its"
      from snapshot_member [OF this] obtain l where l: "l \<in> set ?ls"
        and e: "productId it = productId l" "quantity it = quantity l" by blast
      from suff l have "sufficient n ?cat l" by blast
      then obtain p where "axios_get n ?cat (productId l) = Some p" "quantity l \<le> stock p"
        by (auto simp: sufficient_def split: option.splits)
      with axios_get_stored [of n ?cat "productId l" p]
      have "\<exists>p. ?cat (productId l) = Some p \<and> quantity l \<le> stock p" by blast
      with h l e show "\<not> patch_fails n (productId it) \<and>
        (\<exists>p. ?cat (productId it) = Some p \<and> quantity it \<le> stock p)" by simp
    qed
    from decrease_stock_ok [OF d each] have "fst (decrease_stock n ?cat ?its)" .
    with h ol show ?thesis by (simp add: createOrder_cases [OF c ne])
  qed
  from short only enough show ?thesis by blast
qed

theorem createOrder_stock_check_witness:
  "createOrder no_faults 100 50 7 demo_address
     (demo_world [\<lparr>productId = 1, quantity = 2\<rparr>, \<lparr>productId = 2, quantity = 3\<rparr>]) =
     (Inl (BadRequest ''Insufficient stock for Gadget''),
      demo_world [\<lparr>productId = 1, quantity = 2\<rparr>, \<lparr>productId = 2, quantity = 3\<rparr>]) \<and>
   (\<exists>ord w'. createOrder no_faults 100 50 7 demo_address
      (demo_world [\<lparr>productId = 1, quantity = 2\<rparr>, \<lparr>productId = 2, quantity = 1\<rparr>]) = (Inr ord, w'))"
proof -
  let ?short = "[\<lparr>productId = 1, quantity = 2\<rparr>, \<lparr>productId = 2, quantity = 3\<rparr>]"
  let ?fine = "[\<lparr>productId = 1, quantity = 2\<rparr>, \<lparr>productId = 2, quantity = 1\<rparr>]"
  have c1: "carts (demo_world ?short) 7 = Some \<lparr>cart_items = ?short, cart_updatedAt = 0\<rparr>"
    and c2: "carts (demo_world ?fine) 7 = Some \<lparr>cart_items = ?fine, cart_updatedAt = 0\<rparr>"
    by (simp_all add: demo_world_def)
  have ne1: "cart_items \<lparr>cart_items = ?short, cart_updatedAt = 0\<rparr> \<noteq> []"
    and ne2: "cart_items \<lparr>cart_items = ?fine, cart_updatedAt = 0\<rparr> \<noteq> []" by simp_all
  have r1: "\<forall>l \<in> set (cart_items \<lparr>cart_items = ?short, cart_updatedAt = 0\<rparr>).
      axios_get no_faults (products (demo_world ?short)) (productId l) \<noteq> None"
    and r2: "\<forall>l \<in> set (cart_items \<lparr>cart_items = ?fine, cart_updatedAt = 0\<rparr>).
      axios_get no_faults (products (demo_world ?fine)) (productId l) \<noteq> None"
    by (simp_all add: axios_get_def getProduct_def demo_defs)
  have v: "\<exists>l \<in> set (cart_items \<lparr>cart_items = ?short, cart_updatedAt = 0\<rparr>).
      \<not> sufficient no_faults (products (demo_world ?short)) l"
    by (simp add: sufficient_def axios_get_def getProduct_def demo_defs)
  from createOrder_stock_check [OF c1 ne1 r1, of 100 50 demo_address] v
  obtain l p where f: "find (\<lambda>l. \<not> sufficient no_faults (products (demo_world ?short)) l)
        (cart_items \<lparr>cart_items = ?short, cart_updatedAt = 0\<rparr>) = Some l"
    and p: "axios_get no_faults (products (demo_world ?short)) (productId l) = Some p"
    and r: "createOrder no_faults 100 50 7 demo_address (demo_world ?short) =
        (Inl (BadRequest (''Insufficient stock for '' @ name p)), demo_world ?short)"
    by blast
  from f have "l = \<lparr>productId = 2, quantity = 3\<rparr>"
    by (simp add: sufficient_def axios_get_def getProduct_def demo_defs)
  with p have "name p = ''Gadget''"
    by (auto simp: axios_get_def getProduct_def demo_defs)
  with r have a: "createOrder no_faults 100 50 7 demo_address (demo_world ?short) =
      (Inl (BadRequest ''Insufficient stock for Gadget''), demo_world ?short)" by simp
  have h: "(\<forall>l \<in> set (cart_items \<lparr>cart_items = ?fine, cart_updatedAt = 0\<rparr>).
        sufficient no_faults (products (demo_world ?fine)) l) \<and>
      required_fields demo_address \<and>
      distinct (map productId (cart_items \<lparr>cart_items = ?fine, cart_updatedAt = 0\<rparr>)) \<and>
      (\<forall>l \<in> set (cart_items \<lparr>cart_items = ?fine, cart_updatedAt = 0\<rparr>).
        \<not> patch_fails no_faults (productId l))"
    by (simp add: sufficient_def axios_get_def getProduct_def required_fields_def required_def demo_defs)
  from createOrder_stock_check [OF c2 ne2 r2, of 100 50 demo_address] h
  have b: "\<exists>ord w'. createOrder no_faults 100 50 7 demo_address (demo_world ?fine) = (Inr ord, w')"
    by blast
  from a b show ?thesis by blast
qed

text \<open>
  The claim as first stated, success exactly when every quantity is within stock, fails
  on three inputs whose quantities are all within stock: a request without shipping
  address (the order document does not validate), a stock update that fails in transit,
  and a cart with two lines of three for a product with stock five (the second decrease
  is refused). Each answers status 500.
\<close>

theorem createOrder_stock_check_counterexample:
  "sufficient no_faults demo_catalog \<lparr>productId = 1, quantity = 2\<rparr> \<and>
   createOrder no_faults 100 50 7 no_address (demo_world [\<lparr>productId = 1, quantity = 2\<rparr>]) =
     (Inl ServerError, demo_world [\<lparr>productId = 1, quantity = 2\<rparr>]) \<and>
   sufficient patch_down demo_catalog \<lparr>productId = 1, quantity = 2\<rparr> \<and>
   fst (createOrder patch_down 100 50 7 demo_address (demo_world [\<lparr>productId = 1, quantity = 2\<rparr>])) =
     Inl ServerError \<and>
   sufficient no_faults demo_catalog \<lparr>productId = 1, quantity = 3\<rparr> \<and>
   fst (createOrder no_faults 100 50 7 demo_address
          (demo_world [\<lparr>productId = 1, quantity = 3\<rparr>, \<lparr>productId = 1, quantity = 3\<rparr>])) =
     Inl ServerError"
  by (simp add: sufficient_def handler_defs demo_defs)

lemma axios_get_notify: "axios_get (n\<lparr>notify_fails := b\<rparr>) cat i = axios_get n cat i"
  by (simp add: axios_get_def)

lemma axios_patch_notify:
  "axios_patch (n\<lparr>notify_fails := b\<rparr>) cat i q operation = axios_patch n cat i q operation"
  by (simp add: axios_patch_def)

lemma order_lines_notify:
  "order_lines (n\<lparr>notify_fails := b\<rparr>) cat ls acc tot = order_lines n cat ls acc tot"
  by (induction ls arbitrary: acc tot) (simp_all add: axios_get_notify split: option.splits)

lemma decrease_stock_notify:
  "decrease_stock (n\<lparr>notify_fails := b\<rparr>) cat its = decrease_stock n cat its"
  by (induction its arbitrary: cat) (simp_all add: axios_patch_notify split: prod.splits bool.splits)

lemma createOrder_notify:
  "fst (createOrder (n\<lparr>notify_fails := b\<rparr>) i now u addr w) = fst (createOrder n i now u addr w) \<and>
   orders (snd (createOrder (n\<lparr>notify_fails := b\<rparr>) i now u addr w)) =
     orders (snd (createOrder n i now u addr w)) \<and>
   products (snd (createOrder (n\<lparr>notify_fails := b\<rparr>) i now u addr w)) =
     products (snd (createOrder n i now u addr w)) \<and>
   carts (snd (createOrder (n\<lparr>notify_fails := b\<rparr>) i now u addr w)) =
     carts (snd (createOrder n i now u addr w))"
proof (cases "carts w u")
  case None
  then show ?thesis by (simp add: createOrder_def)
next
  case (Some c)
  show ?thesis
  proof (cases "cart_items c = []")
    case True
    with Some show ?thesis by (simp add: createOrder_def)
  next
    case False
    show ?thesis
      by (simp add: createOrder_cases [OF Some False] order_lines_notify decrease_stock_notify
          send_notification_keeps split: sum.splits prod.splits)
  qed
qed

text \<open>
  Claim C3, amended. A failing notification call is absorbed: the reply, the orders, the
  stock and the carts are the same whether the call fails or not, and a checkout that
  succeeds while the call fails has stored the order it returns, has written the failure
  to the console and has sent no notification. A failing stock update is not absorbed:
  when the cart passes the stock check, the address is valid and the update of some line
  fails in transit, the caller gets status 500 although the order is stored; the cart is
  not cleared and no notification is sent.
\<close>

theorem createOrder_collaborator_failures:
  "fst (createOrder (n\<lparr>notify_fails := True\<rparr>) i now u addr w) =
     fst (createOrder (n\<lparr>notify_fails := False\<rparr>) i now u addr w) \<and>
   orders (snd (createOrder (n\<lparr>notify_fails := True\<rparr>) i now u addr w)) =
     orders (snd (createOrder (n\<lparr>notify_fails := False\<rparr>) i now u addr w)) \<and>
   products (snd (createOrder (n\<lparr>notify_fails := True\<rparr>) i now u addr w)) =
     products (snd (createOrder (n\<lparr>notify_fails := False\<rparr>) i now u addr w)) \<and>
   carts (snd (createOrder (n\<lparr>notify_fails := True\<rparr>) i now u addr w)) =
     carts (snd (createOrder (n\<lparr>notify_fails := False\<rparr>) i now u addr w)) \<and>
   (\<forall>ord w'. createOrder (n\<lparr>notify_fails := True\<rparr>) i now u addr w = (Inr ord, w') \<longrightarrow>
      orders w' = orders w @ [ord] \<and> console w' = console w @ [NotificationError] \<and>
      notifications w' = notifications w) \<and>
   (\<forall>c. carts w u = Some c \<and> cart_items c \<noteq> [] \<and>
        (\<forall>l \<in> set (cart_items c). sufficient n (products w) l) \<and> required_fields addr \<and>
        (\<exists>l \<in> set (cart_items c). patch_fails n (productId l)) \<longrightarrow>
      (\<exists>ord w'. createOrder n i now u addr w = (Inl ServerError, w') \<and>
         orders w' = orders w @ [ord] \<and> orderId ord = i \<and> userId ord = u \<and>
         carts w' = carts w \<and> notifications w' = notifications w))"
proof -
  let ?n = "n\<lparr>notify_fails := True\<rparr>"
  have absorbed: "orders w' = orders w @ [ord] \<and> console w' = console w @ [NotificationError] \<and>
      notifications w' = notifications w"
    if ok: "createOrder ?n i now u addr w = (Inr ord, w')" for ord w'
  proof -
    from createOrder_Inr_cart [OF ok] obtain c where c: "carts w u = Some c"
      and ne: "cart_items c \<noteq> []" by blast
    from ok show ?thesis
      unfolding createOrder_cases [OF c ne]
      by (auto simp: send_notification_def split: sum.splits prod.splits if_splits)
  qed
  have surfaced: "\<exists>ord w'. createOrder n i now u addr w = (Inl ServerError, w') \<and>
         orders w' = orders w @ [ord] \<and> orderId ord = i \<and> userId ord = u \<and>
         carts w' = carts w \<and> notifications w' = notifications w"
    if h: "carts w u = Some c \<and> cart_items c \<noteq> [] \<and>
        (\<forall>l \<in> set (cart_items c). sufficient n (products w) l) \<and> required_fields addr \<and>
        (\<exists>l \<in> set (cart_items c). patch_fails n (productId l))" for c
  proof -
    let ?its = "List.map_filter (snapshot n (products w)) (cart_items c)"
    let ?t = "sum_list (map (\<lambda>it. item_price it * quantity it) ?its)"
    from h have c: "carts w u = Some c" and ne: "cart_items c \<noteq> []"
      and suff: "\<forall>l \<in> set (cart_items c). sufficient n (products w) l" by blast+
    from order_lines_sufficient [OF suff, of "[]" 0]
    have ol: "order_lines n (products w) (cart_items c) [] 0 = Inr (?its, ?t)" by simp
    from order_lines_Inr [OF ol] have "map productId ?its = map productId (cart_items c)" by simp
    then have "productId ` set ?its = productId ` set (cart_items c)"
      by (metis set_map)
    with h have "\<exists>it \<in> set ?its. patch_fails n (productId it)" by (metis (no_types, lifting) imageE image_eqI)
    then have "\<not> fst (decrease_stock n (products w) ?its)" by (rule decrease_stock_fails)
    with h ol show ?thesis
      by (simp add: createOrder_cases [OF c ne] new_order_def)
  qed
  from createOrder_notify [where n = n and b = True and i = i and now = now and u = u
      and addr = addr and w = w]
    createOrder_notify [where n = n and b = False and i = i and now = now and u = u
      and addr = addr and w = w]
  have same: "fst (createOrder ?n i now u addr w) =
       fst (createOrder (n\<lparr>notify_fails := False\<rparr>) i now u addr w) \<and>
     orders (snd (createOrder ?n i now u addr w)) =
       orders (snd (createOrder (n\<lparr>notify_fails := False\<rparr>) i now u addr w)) \<and>
     products (snd (createOrder ?n i now u addr w)) =
       products (snd (createOrder (n\<lparr>notify_fails := False\<rparr>) i now u addr w)) \<and>
     carts (snd (createOrder ?n i now u addr w)) =
       carts (snd (createOrder (n\<lparr>notify_fails := False\<rparr>) i now u addr w))"
    by simp
  from same absorbed surfaced show ?thesis by blast
qed

theorem createOrder_collaborator_failures_witness:
  "fst (createOrder (no_faults\<lparr>notify_fails := True\<rparr>) 100 50 7 demo_address
          (demo_world [\<lparr>productId = 1, quantity = 2\<rparr>])) =
     Inr (new_order 100 50 7 demo_address [widget_item 2] 20) \<and>
   orders (snd (createOrder (no_faults\<lparr>notify_fails := True\<rparr>) 100 50 7 demo_address
          (demo_world [\<lparr>productId = 1, quantity = 2\<rparr>]))) =
     [new_order 100 50 7 demo_address [widget_item 2] 20] \<and>
   console (snd (createOrder (no_faults\<lparr>notify_fails := True\<rparr>) 100 50 7 demo_address
          (demo_world [\<lparr>productId = 1, quantity = 2\<rparr>]))) = [NotificationError] \<and>
   fst (createOrder patch_down 100 50 7 demo_address (demo_world [\<lparr>productId = 1, quantity = 2\<rparr>])) =
     Inl ServerError \<and>
   carts (snd (createOrder patch_down 100 50 7 demo_address
          (demo_world [\<lparr>productId = 1, quantity = 2\<rparr>]))) =
     carts (demo_world [\<lparr>productId = 1, quantity = 2\<rparr>])"
proof -
  let ?w = "demo_world [\<lparr>productId = 1, quantity = 2\<rparr>]"
  let ?down = "no_faults\<lparr>notify_fails := True\<rparr>"
  let ?ord = "new_order 100 50 7 demo_address [widget_item 2] 20"
  note t = createOrder_collaborator_failures [of no_faults 100 50 7 demo_address ?w]
  have "no_faults\<lparr>notify_fails := False\<rparr> = no_faults" by (simp add: no_faults_def)
  with t have "fst (createOrder ?down 100 50 7 demo_address ?w) =
      fst (createOrder no_faults 100 50 7 demo_address ?w)" by simp
  with arg_cong [OF run_ok, of fst]
  have f: "fst (createOrder ?down 100 50 7 demo_address ?w) = Inr ?ord" by simp
  then have "createOrder ?down 100 50 7 demo_address ?w =
      (Inr ?ord, snd (createOrder ?down 100 50 7 demo_address ?w))"
    by (metis prod.collapse)
  with t have "orders (snd (createOrder ?down 100 50 7 demo_address ?w)) = orders ?w @ [?ord] \<and>
      console (snd (createOrder ?down 100 50 7 demo_address ?w)) = console ?w @ [NotificationError]"
    by blast
  then have a: "orders (snd (createOrder ?down 100 50 7 demo_address ?w)) = [?ord] \<and>
      console (snd (createOrder ?down 100 50 7 demo_address ?w)) = [NotificationError]"
    by (simp add: demo_world_def)
  have h: "carts ?w 7 = Some \<lparr>cart_items = [\<lparr>productId = 1, quantity = 2\<rparr>], cart_updatedAt = 0\<rparr> \<and>
      cart_items \<lparr>cart_items = [\<lparr>productId = 1, quantity = 2\<rparr>], cart_updatedAt = 0\<rparr> \<noteq> [] \<and>
      (\<forall>l \<in> set (cart_items \<lparr>cart_items = [\<lparr>productId = 1, quantity = 2\<rparr>], cart_updatedAt = 0\<rparr>).
         sufficient patch_down (products ?w) l) \<and>
      required_fields demo_address \<and>
      (\<exists>l \<in> set (cart_items \<lparr>cart_items = [\<lparr>productId = 1, quantity = 2\<rparr>], cart_updatedAt = 0\<rparr>).
         patch_fails patch_down (productId l))"
    by (simp add: sufficient_def axios_get_def getProduct_def required_fields_def required_def demo_defs)
  from createOrder_collaborator_failures [of patch_down 100 50 7 demo_address ?w] h
  obtain w' where "createOrder patch_down 100 50 7 demo_address ?w = (Inl ServerError, w')"
    and "carts w' = carts ?w" by blast
  then have b: "fst (createOrder patch_down 100 50 7 demo_address ?w) = Inl ServerError \<and>
      carts (snd (createOrder patch_down 100 50 7 demo_address ?w)) = carts ?w" by simp
  from f a b show ?thesis by simp
qed

text \<open>
  The claim as first stated fails when the stock update fails after the order is saved:
  the caller receives status 500, not the order, while the order is in the collection and
  the cart still holds its line.
\<close>

theorem createOrder_collaborator_failures_counterexample:
  "fst (createOrder patch_down 100 50 7 demo_address (demo_world [\<lparr>productId = 1, quantity = 2\<rparr>])) =
     Inl ServerError \<and>
   orders (snd (createOrder patch_down 100 50 7 demo_address
                  (demo_world [\<lparr>productId = 1, quantity = 2\<rparr>]))) =
     [new_order 100 50 7 demo_address [widget_item 2] 20] \<and>
   map_option cart_items (carts (snd (createOrder patch_down 100 50 7 demo_address
                  (demo_world [\<lparr>productId = 1, quantity = 2\<rparr>]))) 7) =
     Some [\<lparr>productId = 1, quantity = 2\<rparr>]"
  by (simp add: handler_defs demo_defs)

end
